theory Spec2Isabelle
  imports Main "HOL-Library.Sublist"
begin

section \<open>The user service of LAB02: store, handlers and middleware\<close>

text \<open>
  The development follows \<^verbatim>\<open>LAB02_Middleware_FastAPI/main.py\<close>. The backing file
  \<^verbatim>\<open>data.json\<close> is explicit state that every handler takes and returns. Python
  integers are unbounded, so ids and ages are \<^typ>\<open>int\<close>. The process-wide lock serialises
  the mutating handlers; the model runs one handler at a time.
\<close>

subsection \<open>Data model\<close>

text \<open>\<^verbatim>\<open>UserIn\<close> has the three submitted fields; \<^verbatim>\<open>UserOut\<close> inherits them and adds
  \<^verbatim>\<open>id\<close> (the field is called \<open>uid\<close> here, \<open>id\<close> being the identity function of HOL).\<close>

record user_in =
  username :: string
  email :: string
  age :: int

record user = user_in +
  uid :: int

text \<open>The dictionary literal \<^verbatim>\<open>{"id": i, **user.dict()}\<close> of the create and update handlers.\<close>

definition mk_user :: "int \<Rightarrow> user_in \<Rightarrow> user" where
  "mk_user i u = \<lparr>username = username u, email = email u, age = age u, uid = i\<rparr>"

text \<open>
  The document kept in the file. The key \<^verbatim>\<open>next_id\<close> is read with
  \<^verbatim>\<open>db.get("next_id", 1)\<close>, so a document may lack it: the field is optional. The key
  \<^verbatim>\<open>users\<close> is read with \<^verbatim>\<open>db["users"]\<close> and is always present in the documents
  modelled here.
\<close>

record document =
  users :: "user list"
  next_id :: "int option"

definition default_document :: document where
  "default_document = \<lparr>users = [], next_id = Some 1\<rparr>"

text \<open>
  The file system as far as the program sees it: the content of \<^verbatim>\<open>DATA_FILE\<close>
  (\<open>None\<close> while the file does not exist) and the number of times the file has been opened
  for writing, which tells a rewrite with equal content from no write at all.
\<close>

record fs =
  content :: "document option"
  writes :: nat

subsection \<open>Store\<close>

definition save_db :: "document \<Rightarrow> fs \<Rightarrow> fs" where
  "save_db db s = s\<lparr>content := Some db, writes := Suc (writes s)\<rparr>"

definition ensure_db :: "fs \<Rightarrow> fs" where
  "ensure_db s =
     (case content s of
        None \<Rightarrow> s\<lparr>content := Some default_document, writes := Suc (writes s)\<rparr>
      | Some _ \<Rightarrow> s)"

text \<open>\<^verbatim>\<open>load_db\<close> calls \<^verbatim>\<open>_ensure_db\<close> and then reads the file, which exists by then
  (lemma \<open>ensure_db_exists\<close> below), so the second branch of the read is never taken.\<close>

definition load_db :: "fs \<Rightarrow> document \<times> fs" where
  "load_db s =
     (let s1 = ensure_db s
      in (case content s1 of Some db \<Rightarrow> db | None \<Rightarrow> default_document, s1))"

subsection \<open>Handlers\<close>

datatype http_exception = HTTPException nat string

text \<open>The loop \<^verbatim>\<open>for i, u in enumerate(db["users"])\<close> with its test \<^verbatim>\<open>u["id"] == user_id\<close>:
  the index of the first record with that id, if there is one.\<close>

fun first_index :: "int \<Rightarrow> user list \<Rightarrow> nat option" where
  "first_index user_id [] = None"
| "first_index user_id (u # us) =
     (if uid u = user_id then Some 0 else map_option Suc (first_index user_id us))"

text \<open>\<^verbatim>\<open>list.pop(i)\<close> at an index in range.\<close>

definition pop :: "nat \<Rightarrow> 'a list \<Rightarrow> 'a list" where
  "pop i xs = take i xs @ drop (Suc i) xs"

definition list_users :: "fs \<Rightarrow> user list \<times> fs" where
  "list_users s = (let (db, s1) = load_db s in (users db, s1))"

definition get_user :: "int \<Rightarrow> fs \<Rightarrow> (http_exception + user) \<times> fs" where
  "get_user user_id s =
     (let (db, s1) = load_db s
      in (case find (\<lambda>u. uid u = user_id) (users db) of
            Some u \<Rightarrow> (Inr u, s1)
          | None \<Rightarrow> (Inl (HTTPException 404 ''User not found''), s1)))"

definition create_user :: "user_in \<Rightarrow> fs \<Rightarrow> user \<times> fs" where
  "create_user usr s =
     (let (db, s1) = load_db s;
          new_id = (case next_id db of Some n \<Rightarrow> n | None \<Rightarrow> 1);
          rec = mk_user new_id usr;
          db1 = db\<lparr>users := users db @ [rec]\<rparr>;
          db2 = db1\<lparr>next_id := Some (new_id + 1)\<rparr>
      in (rec, save_db db2 s1))"

definition update_user :: "int \<Rightarrow> user_in \<Rightarrow> fs \<Rightarrow> (http_exception + user) \<times> fs" where
  "update_user user_id usr s =
     (let (db, s1) = load_db s
      in (case first_index user_id (users db) of
            Some i \<Rightarrow>
              (let updated = mk_user user_id usr;
                   db1 = db\<lparr>users := (users db)[i := updated]\<rparr>
               in (Inr updated, save_db db1 s1))
          | None \<Rightarrow> (Inl (HTTPException 404 ''User not found''), s1)))"

definition delete_user :: "int \<Rightarrow> fs \<Rightarrow> (http_exception + unit) \<times> fs" where
  "delete_user user_id s =
     (let (db, s1) = load_db s
      in (case first_index user_id (users db) of
            Some i \<Rightarrow>
              (let db1 = db\<lparr>users := pop i (users db)\<rparr>
               in (Inr (), save_db db1 s1))
          | None \<Rightarrow> (Inl (HTTPException 404 ''User not found''), s1)))"

subsection \<open>Requests, responses and routes\<close>

datatype json =
    JBool bool
  | JInt int
  | JStr string
  | JArr "json list"
  | JObj "(string \<times> json) list"

text \<open>A request as the program reads it: method, path (the \<^verbatim>\<open>scope["path"]\<close> that the routes are
  matched against), headers, and the request body as validated against \<^verbatim>\<open>UserIn\<close> (\<open>None\<close>
  when there is no valid body).\<close>

record request =
  http_method :: string
  path :: string
  req_headers :: "string \<rightharpoonup> string"
  payload :: "user_in option"

record response =
  status :: nat
  resp_headers :: "string \<rightharpoonup> string"
  body :: "json option"

text \<open>Of the headers of a response the model keeps \<^verbatim>\<open>content-type\<close> and what the middleware
  adds; \<^verbatim>\<open>content-length\<close> is left out.\<close>

definition JSONResponse :: "nat \<Rightarrow> json \<Rightarrow> response" where
  "JSONResponse code j =
     \<lparr>status = code, resp_headers = [''content-type'' \<mapsto> ''application/json''], body = Some j\<rparr>"

text \<open>For a status that allows no body the framework builds the \<^verbatim>\<open>JSONResponse\<close> all the same
  and then empties its body: the headers stay.\<close>

definition empty_response :: "nat \<Rightarrow> response" where
  "empty_response code =
     \<lparr>status = code, resp_headers = [''content-type'' \<mapsto> ''application/json''], body = None\<rparr>"

text \<open>A raised \<^verbatim>\<open>HTTPException(status_code, detail)\<close> is answered with that status and the
  body \<^verbatim>\<open>{"detail": detail}\<close>.\<close>

fun exception_response :: "http_exception \<Rightarrow> response" where
  "exception_response (HTTPException code detail) = JSONResponse code (JObj [(''detail'', JStr detail)])"

text \<open>A user as serialised through \<^verbatim>\<open>response_model=UserOut\<close>.\<close>

definition user_out :: "user \<Rightarrow> json" where
  "user_out u =
     JObj [(''username'', JStr (username u)), (''email'', JStr (email u)),
           (''age'', JInt (age u)), (''id'', JInt (uid u))]"

definition health :: json where
  "health = JObj [(''status'', JStr ''ok'')]"

definition admin_secret :: json where
  "admin_secret = JObj [(''ok'', JBool True), (''msg'', JStr ''Welcome, admin.'')]"

text \<open>The seven decorated endpoints, with their path and body parameters already converted.\<close>

datatype endpoint =
    Health
  | AdminSecret
  | ListUsers
  | GetUser int
  | CreateUser user_in
  | UpdateUser int user_in
  | DeleteUser int

text \<open>Running an endpoint: the handler, then the response its decorator declares
  (\<^verbatim>\<open>status_code=201\<close> for create, \<^verbatim>\<open>status_code=204\<close> with no body for delete, 200
  otherwise).\<close>

fun dispatch :: "endpoint \<Rightarrow> fs \<Rightarrow> response \<times> fs" where
  "dispatch Health s = (JSONResponse 200 health, s)"
| "dispatch AdminSecret s = (JSONResponse 200 admin_secret, s)"
| "dispatch ListUsers s =
     (let (us, s1) = list_users s in (JSONResponse 200 (JArr (map user_out us)), s1))"
| "dispatch (GetUser user_id) s =
     (case get_user user_id s of
        (Inl e, s1) \<Rightarrow> (exception_response e, s1)
      | (Inr u, s1) \<Rightarrow> (JSONResponse 200 (user_out u), s1))"
| "dispatch (CreateUser usr) s =
     (let (rec, s1) = create_user usr s in (JSONResponse 201 (user_out rec), s1))"
| "dispatch (UpdateUser user_id usr) s =
     (case update_user user_id usr s of
        (Inl e, s1) \<Rightarrow> (exception_response e, s1)
      | (Inr u, s1) \<Rightarrow> (JSONResponse 200 (user_out u), s1))"
| "dispatch (DeleteUser user_id) s =
     (case delete_user user_id s of
        (Inl e, s1) \<Rightarrow> (exception_response e, s1)
      | (Inr _, s1) \<Rightarrow> (empty_response 204, s1))"

text \<open>The segment matched by \<^verbatim>\<open>{user_id}\<close> in \<^verbatim>\<open>/users/{user_id}\<close>: non-empty, without
  a slash.\<close>

definition path_param :: "string \<Rightarrow> string option" where
  "path_param p =
     (if prefix ''/users/'' p
      then (let seg = drop 7 p
            in if seg \<noteq> [] \<and> CHR ''/'' \<notin> set seg then Some seg else None)
      else None)"

text \<open>
  What the framework supplies and the program only uses: the conversion of the path segment
  to \<^verbatim>\<open>int\<close>, the answer to a request that reaches no handler of the program (no route, a
  method that is not allowed, a parameter or body that does not validate), the answer of the
  framework's outermost layer to a request whose processing raised (by default a plain-text
  500), and, for the \<^verbatim>\<open>CORSMiddleware\<close>, the answer to a preflight request and the headers set
  on any other response. They are parameters of the model.
\<close>

record framework =
  path_int :: "string \<Rightarrow> int option"
  no_handler :: "request \<Rightarrow> response"
  error_response :: "request \<Rightarrow> response"
  preflight_response :: "request \<Rightarrow> response"
  simple_headers :: "request \<Rightarrow> (string \<rightharpoonup> string)"

text \<open>The route table the decorators register.\<close>

definition route :: "framework \<Rightarrow> request \<Rightarrow> endpoint option" where
  "route fw req =
     (if http_method req = ''GET'' \<and> path req = ''/health'' then Some Health
      else if http_method req = ''GET'' \<and> path req = ''/admin/secret'' then Some AdminSecret
      else if http_method req = ''GET'' \<and> path req = ''/users'' then Some ListUsers
      else if http_method req = ''POST'' \<and> path req = ''/users''
        then map_option CreateUser (payload req)
      else (case path_param (path req) of
              None \<Rightarrow> None
            | Some seg \<Rightarrow>
                (case path_int fw seg of
                   None \<Rightarrow> None
                 | Some user_id \<Rightarrow>
                     if http_method req = ''GET'' then Some (GetUser user_id)
                     else if http_method req = ''PUT''
                       then map_option (UpdateUser user_id) (payload req)
                     else if http_method req = ''DELETE'' then Some (DeleteUser user_id)
                     else None)))"

text \<open>
  The backing file as the running service may find it. Besides the states of \<^typ>\<open>fs\<close> (no
  file, or a file that holds a document) the file may hold text that \<^verbatim>\<open>json.load\<close> rejects.
  On such a file \<^verbatim>\<open>_ensure_db\<close> does nothing, the file being there, and \<^verbatim>\<open>load_db\<close> raises:
  every handler that starts with \<^verbatim>\<open>load_db\<close> raises before it writes anything. The two
  handlers that do not read the file answer as usual.
\<close>

datatype fault = JSONDecodeError

datatype disk = Corrupt | Sound fs

fun serve :: "endpoint \<Rightarrow> disk \<Rightarrow> (fault + response) \<times> disk" where
  "serve Health d = (Inr (JSONResponse 200 health), d)"
| "serve AdminSecret d = (Inr (JSONResponse 200 admin_secret), d)"
| "serve e Corrupt = (Inl JSONDecodeError, Corrupt)"
| "serve e (Sound s) = (let (response, s1) = dispatch e s in (Inr response, Sound s1))"

text \<open>An application in the stack either returns a response or raises.\<close>

type_synonym app = "request \<Rightarrow> disk \<Rightarrow> (fault + response) \<times> disk"

type_synonym middleware = "app \<Rightarrow> app"

definition router :: "framework \<Rightarrow> app" where
  "router fw req d =
     (case route fw req of
        None \<Rightarrow> (Inr (no_handler fw req), d)
      | Some e \<Rightarrow> serve e d)"

subsection \<open>Middleware\<close>

text \<open>
  \<^verbatim>\<open>f"{duration_ms:.2f}ms"\<close>: the elapsed time is a non-negative float (the difference of two
  readings of a monotonic clock), and the format rounds it to a whole number of hundredths of
  a millisecond. The model takes that number of hundredths as the reading of the clock.
\<close>

definition digit_char :: "nat \<Rightarrow> char" where
  "digit_char d = ''0123456789'' ! (d mod 10)"

fun decimal :: "nat \<Rightarrow> string" where
  "decimal n = (if n < 10 then [digit_char n] else decimal (n div 10) @ [digit_char (n mod 10)])"

definition format_ms :: "nat \<Rightarrow> string" where
  "format_ms h =
     decimal (h div 100) @ ''.'' @ [digit_char (h mod 100 div 10), digit_char (h mod 10)] @ ''ms''"

text \<open>\<^verbatim>\<open>response = await call_next(request)\<close> is not guarded: when the downstream raises, the
  line that sets the header is not reached and the exception goes on to the caller.\<close>

definition timing_header :: "nat \<Rightarrow> middleware" where
  "timing_header elapsed call_next req d =
     (case call_next req d of
        (Inl exc, d1) \<Rightarrow> (Inl exc, d1)
      | (Inr response, d1) \<Rightarrow>
          (Inr (response\<lparr>resp_headers :=
                   (resp_headers response)(''X-Process-Time'' \<mapsto> format_ms elapsed)\<rparr>), d1))"

definition unauthorized :: response where
  "unauthorized =
     JSONResponse 401 (JObj [(''detail'', JStr ''Unauthorized (missing/invalid X-API-Key)'')])"

text \<open>
  \<^verbatim>\<open>request.url.path\<close> is not the path the routes are matched against. The framework rebuilds
  the URL as \<^verbatim>\<open>f"{scheme}://{host_header}{path}"\<close> from the \<^verbatim>\<open>Host\<close> header of the request and
  \<^verbatim>\<open>scope["path"]\<close> and splits it again: the authority ends at the first of \<^verbatim>\<open>/\<close>, \<^verbatim>\<open>?\<close>
  and \<^verbatim>\<open>#\<close>, and the path runs from there to the first \<^verbatim>\<open>?\<close> or \<^verbatim>\<open>#\<close>. Without a \<^verbatim>\<open>Host\<close>
  header the authority is the server's own address. Header names are compared without regard
  to case by the framework; the maps are keyed by the spelling the code uses.
\<close>

definition url_path :: "request \<Rightarrow> string" where
  "url_path req =
     (case req_headers req ''host'' of
        None \<Rightarrow> takeWhile (\<lambda>c. c \<notin> set ''?#'') (path req)
      | Some host_header \<Rightarrow>
          takeWhile (\<lambda>c. c \<notin> set ''?#'')
            (dropWhile (\<lambda>c. c \<notin> set ''/?#'') (host_header @ path req)))"

definition admin_guard :: "string \<Rightarrow> middleware" where
  "admin_guard API_KEY call_next req d =
     (if prefix ''/admin/'' (url_path req)
      then (let provided = req_headers req ''X-API-Key''
            in if provided \<noteq> Some API_KEY then (Inr unauthorized, d) else call_next req d)
      else call_next req d)"

text \<open>
  The library's \<^verbatim>\<open>CORSMiddleware\<close>: a request without an \<^verbatim>\<open>Origin\<close> header passes through
  untouched, a preflight request is answered without calling downstream, and any other
  request is passed downstream and its response, if there is one, gets the CORS headers.
\<close>

definition CORSMiddleware :: "framework \<Rightarrow> middleware" where
  "CORSMiddleware fw call_next req d =
     (case req_headers req ''origin'' of
        None \<Rightarrow> call_next req d
      | Some origin \<Rightarrow>
          if http_method req = ''OPTIONS'' \<and> req_headers req ''access-control-request-method'' \<noteq> None
          then (Inr (preflight_response fw req), d)
          else (case call_next req d of
                  (Inl exc, d1) \<Rightarrow> (Inl exc, d1)
                | (Inr response, d1) \<Rightarrow>
                    (Inr (response\<lparr>resp_headers := resp_headers response ++ simple_headers fw req\<rparr>),
                     d1)))"

text \<open>The library's \<^verbatim>\<open>ServerErrorMiddleware\<close>: an exception that reaches it is answered with the
  framework's error response.\<close>

definition ServerErrorMiddleware ::
  "framework \<Rightarrow> app \<Rightarrow> request \<Rightarrow> disk \<Rightarrow> response \<times> disk" where
  "ServerErrorMiddleware fw call_next req d =
     (case call_next req d of
        (Inl exc, d1) \<Rightarrow> (error_response fw req, d1)
      | (Inr response, d1) \<Rightarrow> (response, d1))"

text \<open>
  Registration. The decorator \<^verbatim>\<open>@app.middleware("http")\<close> calls \<^verbatim>\<open>app.add_middleware\<close>, which
  does \<^verbatim>\<open>self.user_middleware.insert(0, ...)\<close>; the stack is the list
  \<^verbatim>\<open>[ServerErrorMiddleware] + user_middleware + [ExceptionMiddleware]\<close>, built by
  \<^verbatim>\<open>for cls, args, kwargs in reversed(middleware): app = cls(app, ...)\<close> starting from the
  router. So the list is wrapped around the router from its last entry to its first, and of
  the program's middleware the one registered last is the outermost. The innermost entry
  turns a raised \<^verbatim>\<open>HTTPException\<close> into a response, which \<open>dispatch\<close> does here.
\<close>

definition add_middleware :: "middleware \<Rightarrow> middleware list \<Rightarrow> middleware list" where
  "add_middleware m ms = m # ms"

definition build_middleware_stack :: "middleware list \<Rightarrow> app \<Rightarrow> app" where
  "build_middleware_stack ms inner = fold (\<lambda>m a. m a) (rev ms) inner"

text \<open>The three registrations in the order of the source: CORS, timing, admin guard.\<close>

definition user_middleware :: "framework \<Rightarrow> string \<Rightarrow> nat \<Rightarrow> middleware list" where
  "user_middleware fw API_KEY elapsed =
     add_middleware (admin_guard API_KEY)
       (add_middleware (timing_header elapsed)
         (add_middleware (CORSMiddleware fw) []))"

definition application ::
  "framework \<Rightarrow> string \<Rightarrow> nat \<Rightarrow> request \<Rightarrow> disk \<Rightarrow> response \<times> disk" where
  "application fw API_KEY elapsed =
     ServerErrorMiddleware fw
       (build_middleware_stack (user_middleware fw API_KEY elapsed) (router fw))"

subsection \<open>Histories\<close>

text \<open>The ids a call issues, and the run of a sequence of calls from a state of the file
  system, collecting the ids issued on the way.\<close>

definition issued_by :: "endpoint \<Rightarrow> fs \<Rightarrow> int list" where
  "issued_by e s = (case e of CreateUser usr \<Rightarrow> [uid (fst (create_user usr s))] | _ \<Rightarrow> [])"

fun run :: "endpoint list \<Rightarrow> fs \<Rightarrow> int list \<Rightarrow> fs \<times> int list" where
  "run [] s issued = (s, issued)"
| "run (e # es) s issued = run es (snd (dispatch e s)) (issued @ issued_by e s)"

text \<open>The states the service starts from: no file yet, or the default document.\<close>

definition initial :: "fs \<Rightarrow> bool" where
  "initial s = (content s = None \<or> content s = Some default_document)"

subsection \<open>The pattern of the timing header\<close>



subsection \<open>Sample values\<close>

text \<open>A framework instance, two submitted users and some requests, for the worked examples.\<close>

definition sample_framework :: framework where
  "sample_framework =
     \<lparr>path_int = (\<lambda>seg. if seg = ''1'' then Some 1 else if seg = ''2'' then Some 2 else None),
      no_handler = (\<lambda>req. JSONResponse 404 (JObj [(''detail'', JStr ''Not Found'')])),
      error_response = (\<lambda>req. \<lparr>status = 500, resp_headers = Map.empty, body = None\<rparr>),
      preflight_response = (\<lambda>req. \<lparr>status = 200, resp_headers = Map.empty, body = None\<rparr>),
      simple_headers = (\<lambda>req. [''access-control-allow-origin'' \<mapsto> ''*''])\<rparr>"

definition alice :: user_in where
  "alice = \<lparr>username = ''a'', email = ''a@x.com'', age = 30\<rparr>"

definition bob :: user_in where
  "bob = \<lparr>username = ''b'', email = ''b@x.com'', age = 41\<rparr>"

definition no_file :: fs where
  "no_file = \<lparr>content = None, writes = 0\<rparr>"

definition get_request :: "string \<Rightarrow> (string \<rightharpoonup> string) \<Rightarrow> request" where
  "get_request p hs = \<lparr>http_method = ''GET'', path = p, req_headers = hs, payload = None\<rparr>"

definition two_users :: fs where
  "two_users =
     \<lparr>content = Some \<lparr>users = [mk_user 1 alice, mk_user 2 bob], next_id = Some 3\<rparr>, writes = 3\<rparr>"

text \<open>The state that \<open>create_user bob\<close> leaves when the file held alice with id 1 and no
  \<open>next_id\<close>: two records with the id 1.\<close>

definition same_id_twice :: fs where
  "same_id_twice =
     \<lparr>content = Some \<lparr>users = [mk_user 1 alice, mk_user 1 bob], next_id = Some 2\<rparr>, writes = 2\<rparr>"

subsection \<open>The invariant of the store\<close>

text \<open>
  A document together with the ids issued so far: the ids in the document are distinct and
  were all issued, the ids were issued in increasing order, and \<open>next_id\<close> is present and
  above every one of them.
\<close>

definition doc_inv :: "document \<Rightarrow> int list \<Rightarrow> bool" where
  "doc_inv db issued =
     (distinct (map uid (users db))
      \<and> uid ` set (users db) \<subseteq> set issued
      \<and> sorted_wrt (<) issued
      \<and> (case next_id db of None \<Rightarrow> False | Some n \<Rightarrow> \<forall>i\<in>set issued. i < n))"

definition store_inv :: "fs \<Rightarrow> int list \<Rightarrow> bool" where
  "store_inv s issued = doc_inv (fst (load_db s)) issued"

section \<open>Auxiliary facts\<close>

lemma ensure_db_exists: "content (ensure_db s) \<noteq> None"
  by (simp add: ensure_db_def split: option.splits)

lemma ensure_db_Some: "content s = Some db \<Longrightarrow> ensure_db s = s"
  by (simp add: ensure_db_def)

lemma load_db_Some: "content s = Some db \<Longrightarrow> load_db s = (db, s)"
  by (simp add: load_db_def ensure_db_def)

lemma load_db_None:
  "content s = None \<Longrightarrow>
     load_db s = (default_document, s\<lparr>content := Some default_document, writes := Suc (writes s)\<rparr>)"
  by (simp add: load_db_def ensure_db_def)

lemma load_db_ensure: "load_db s = (fst (load_db s), ensure_db s)"
  by (simp add: load_db_def Let_def)

lemma content_ensure: "content (ensure_db s) = Some (fst (load_db s))"
  by (simp add: load_db_def ensure_db_def split: option.splits)

lemma load_db_save: "load_db (save_db db s) = (db, save_db db s)"
  by (simp add: load_db_def ensure_db_def save_db_def)

lemma first_index_None: "first_index user_id us = None \<longleftrightarrow> user_id \<notin> uid ` set us"
  by (induction us) auto

lemma first_index_Some:
  "first_index user_id us = Some i \<Longrightarrow>
     i < length us \<and> uid (us ! i) = user_id \<and> (\<forall>j<i. uid (us ! j) \<noteq> user_id)"
proof (induction us arbitrary: i)
  case Nil
  then show ?case by simp
next
  case (Cons u us)
  show ?case
  proof (cases "uid u = user_id")
    case True
    with Cons.prems show ?thesis by simp
  next
    case False
    with Cons.prems obtain k where k: "first_index user_id us = Some k" "i = Suc k"
      by auto
    from Cons.IH [OF k(1)] False k(2) show ?thesis
      by (auto simp: nth_Cons split: nat.splits)
  qed
qed

lemma find_None_iff_id: "find (\<lambda>u. uid u = user_id) us = None \<longleftrightarrow> user_id \<notin> uid ` set us"
  by (auto simp: find_None_iff)

lemma first_index_split:
  assumes "first_index user_id us = Some i"
  shows "us = take i us @ us ! i # drop (Suc i) us \<and> uid (us ! i) = user_id
         \<and> user_id \<notin> uid ` set (take i us) \<and> i < length us"
proof -
  from first_index_Some [OF assms]
  have i: "i < length us" and m: "uid (us ! i) = user_id" and b: "\<forall>j<i. uid (us ! j) \<noteq> user_id"
    by simp_all
  have "user_id \<notin> uid ` set (take i us)"
  proof
    assume "user_id \<in> uid ` set (take i us)"
    then obtain u where "u \<in> set (take i us)" "uid u = user_id" by auto
    then obtain j where "j < length (take i us)" "take i us ! j = u"
      by (auto simp: in_set_conv_nth)
    with i have "j < i" "us ! j = u" by simp_all
    with b \<open>uid u = user_id\<close> show False by blast
  qed
  with i m show ?thesis by (simp add: id_take_nth_drop [symmetric])
qed

lemma first_index_exists:
  "user_id \<in> uid ` set us \<Longrightarrow> \<exists>i. first_index user_id us = Some i"
  using first_index_None [of user_id us] by (cases "first_index user_id us") auto

lemma load_db_twice: "load_db (ensure_db s) = load_db s"
  by (simp add: load_db_def ensure_db_def split: option.splits)

lemma load_db_obtain:
  obtains db where "load_db s = (db, ensure_db s)" and "fst (load_db s) = db"
  using load_db_ensure [of s] by simp

lemma initial_inv: "initial s \<Longrightarrow> store_inv s []"
  by (auto simp: initial_def store_inv_def doc_inv_def load_db_Some load_db_None default_document_def)

lemma store_inv_ensure: "store_inv (ensure_db s) issued = store_inv s issued"
  by (simp add: store_inv_def load_db_twice)

lemma uid_mk_user: "uid (mk_user i usr) = i"
  by (simp add: mk_user_def)

lemma doc_inv_next_id: "doc_inv db issued \<Longrightarrow> \<exists>n. next_id db = Some n"
  by (auto simp: doc_inv_def split: option.splits)

lemma doc_inv_create:
  assumes "doc_inv db issued" and "next_id db = Some n"
  shows "doc_inv (db\<lparr>users := users db @ [mk_user n usr], next_id := Some (n + 1)\<rparr>) (issued @ [n])"
proof -
  from assms have sub: "uid ` set (users db) \<subseteq> set issued" and lt: "\<forall>i\<in>set issued. i < n"
    by (simp_all add: doc_inv_def)
  then have "n \<notin> uid ` set (users db)" by auto
  with assms sub lt show ?thesis
    by (auto simp: doc_inv_def uid_mk_user sorted_wrt_append)
qed

lemma map_uid_update:
  assumes "first_index user_id us = Some i"
  shows "map uid (us[i := mk_user user_id usr]) = map uid us"
proof -
  from first_index_Some [OF assms] have "i < length us" "uid (us ! i) = user_id"
    by simp_all
  then have "(map uid us)[i := user_id] = map uid us"
    by (metis list_update_id nth_map)
  then show ?thesis
    by (simp add: map_update uid_mk_user)
qed

lemma doc_inv_update:
  assumes "doc_inv db issued" and "first_index user_id (users db) = Some i"
  shows "doc_inv (db\<lparr>users := (users db)[i := mk_user user_id usr]\<rparr>) issued"
proof -
  let ?us = "(users db)[i := mk_user user_id usr]"
  have m: "map uid ?us = map uid (users db)"
    by (rule map_uid_update [OF assms(2)])
  then have "set (map uid ?us) = set (map uid (users db))" by simp
  then have "uid ` set ?us = uid ` set (users db)" by (simp only: set_map)
  with m assms(1) show ?thesis by (simp add: doc_inv_def)
qed

lemma distinct_pop:
  assumes "distinct xs"
  shows "distinct (pop i xs)"
proof -
  from assms have "distinct (take i xs @ drop i xs)" by simp
  then have "set (take i xs) \<inter> set (drop i xs) = {}"
    by (simp only: distinct_append)
  moreover have "set (drop (Suc i) xs) \<subseteq> set (drop i xs)"
    by (rule set_drop_subset_set_drop) simp
  ultimately have "set (take i xs) \<inter> set (drop (Suc i) xs) = {}" by blast
  with assms show ?thesis by (simp add: pop_def)
qed

lemma map_pop: "map f (pop i xs) = pop i (map f xs)"
  by (simp add: pop_def take_map drop_map)

lemma set_pop: "set (pop i xs) \<subseteq> set xs"
  by (auto simp: pop_def dest: in_set_takeD in_set_dropD)

lemma doc_inv_delete:
  assumes "doc_inv db issued"
  shows "doc_inv (db\<lparr>users := pop i (users db)\<rparr>) issued"
proof -
  from assms have "distinct (map uid (pop i (users db)))"
    by (simp add: doc_inv_def map_pop distinct_pop)
  moreover from assms set_pop [of i "users db"]
  have "uid ` set (pop i (users db)) \<subseteq> set issued"
    by (auto simp: doc_inv_def)
  ultimately show ?thesis using assms by (simp add: doc_inv_def)
qed

lemma store_inv_step:
  assumes "store_inv s issued"
  shows "store_inv (snd (dispatch e s)) (issued @ issued_by e s)"
proof -
  obtain db where l: "load_db s = (db, ensure_db s)" and f: "fst (load_db s) = db"
    by (rule load_db_obtain)
  from assms f have inv: "doc_inv db issued" by (simp add: store_inv_def)
  have keep: "store_inv (ensure_db s) issued"
    using assms by (simp add: store_inv_ensure)
  show ?thesis
  proof (cases e)
    case Health
    with assms show ?thesis by (simp add: issued_by_def)
  next
    case AdminSecret
    with assms show ?thesis by (simp add: issued_by_def)
  next
    case ListUsers
    with keep show ?thesis by (simp add: issued_by_def list_users_def l)
  next
    case (GetUser user_id)
    with keep show ?thesis
      by (simp add: issued_by_def get_user_def l split: option.splits)
  next
    case (CreateUser usr)
    from doc_inv_next_id [OF inv] obtain n where n: "next_id db = Some n" ..
    from doc_inv_create [OF inv n, of usr] CreateUser n show ?thesis
      by (simp add: issued_by_def create_user_def l Let_def store_inv_def load_db_save uid_mk_user)
  next
    case (UpdateUser user_id usr)
    show ?thesis
    proof (cases "first_index user_id (users db)")
      case None
      with keep UpdateUser show ?thesis
        by (simp add: issued_by_def update_user_def l)
    next
      case (Some i)
      from doc_inv_update [OF inv Some, of usr] UpdateUser Some show ?thesis
        by (simp add: issued_by_def update_user_def l Let_def store_inv_def load_db_save)
    qed
  next
    case (DeleteUser user_id)
    show ?thesis
    proof (cases "first_index user_id (users db)")
      case None
      with keep DeleteUser show ?thesis
        by (simp add: issued_by_def delete_user_def l)
    next
      case (Some i)
      from doc_inv_delete [OF inv, of i] DeleteUser Some show ?thesis
        by (simp add: issued_by_def delete_user_def l Let_def store_inv_def load_db_save)
    qed
  qed
qed

lemma store_inv_run:
  "store_inv s issued \<Longrightarrow> run es s issued = (s', issued') \<Longrightarrow> store_inv s' issued'"
proof (induction es arbitrary: s issued)
  case Nil
  then show ?case by simp
next
  case (Cons e es)
  from Cons.prems(1) have "store_inv (snd (dispatch e s)) (issued @ issued_by e s)"
    by (rule store_inv_step)
  with Cons.prems(2) show ?case
    by (auto intro: Cons.IH)
qed

lemma run_append:
  "run (xs @ ys) s issued = (case run xs s issued of (s1, issued1) \<Rightarrow> run ys s1 issued1)"
  by (induction xs arbitrary: s issued) simp_all


declare decimal.simps [simp del]




lemma application_stack:
  "application fw API_KEY elapsed
     = ServerErrorMiddleware fw
         (admin_guard API_KEY (timing_header elapsed (CORSMiddleware fw (router fw))))"
  by (simp add: application_def user_middleware_def add_middleware_def build_middleware_stack_def)








lemmas eval_store =
  load_db_def ensure_db_def save_db_def default_document_def Let_def mk_user_def
  create_user_def update_user_def delete_user_def get_user_def list_users_def pop_def
  issued_by_def no_file_def two_users_def same_id_twice_def alice_def bob_def

lemmas eval_http =
  application_stack ServerErrorMiddleware_def admin_guard_def timing_header_def
  CORSMiddleware_def router_def route_def path_param_def url_path_def sample_framework_def
  get_request_def JSONResponse_def empty_response_def unauthorized_def admin_secret_def
  health_def

section \<open>The claims\<close>

text \<open>Claim C1. After any sequence of calls from an initial state, \<^verbatim>\<open>POST /users\<close>
  answers 201 with a user whose id is the \<open>next_id\<close> of the document at the start of the call,
  stores that value plus one as the new \<open>next_id\<close>, and the id is greater than every id
  issued before in the sequence, those of users deleted since included: the ids issued form
  a strictly increasing sequence.\<close>

theorem create_assigns_next_id:
  assumes "initial s0" and "run calls s0 [] = (s, issued)"
  shows "\<exists>n. next_id (fst (load_db s)) = Some n
           \<and> fst (create_user usr s) = mk_user n usr
           \<and> uid (fst (create_user usr s)) = n
           \<and> next_id (fst (load_db (snd (create_user usr s)))) = Some (n + 1)
           \<and> (\<forall>i\<in>set issued. i < uid (fst (create_user usr s)))
           \<and> dispatch (CreateUser usr) s
               = (\<lparr>status = 201, resp_headers = [''content-type'' \<mapsto> ''application/json''],
                    body = Some (user_out (mk_user n usr))\<rparr>, snd (create_user usr s))
           \<and> run (calls @ [CreateUser usr]) s0 [] = (snd (create_user usr s), issued @ [n])
           \<and> sorted_wrt (<) (issued @ [n])"
proof -
  from initial_inv [OF assms(1)] assms(2) have "store_inv s issued"
    by (rule store_inv_run)
  obtain db where l: "load_db s = (db, ensure_db s)" and f: "fst (load_db s) = db"
    by (rule load_db_obtain)
  from \<open>store_inv s issued\<close> f have inv: "doc_inv db issued" by (simp add: store_inv_def)
  from doc_inv_next_id [OF inv] obtain n where n: "next_id db = Some n" ..
  from inv n have lt: "\<forall>i\<in>set issued. i < n" by (simp add: doc_inv_def)
  have c: "create_user usr s
             = (mk_user n usr,
                save_db (db\<lparr>users := users db @ [mk_user n usr], next_id := Some (n + 1)\<rparr>) (ensure_db s))"
    using n by (simp add: create_user_def l Let_def)
  have r: "run (calls @ [CreateUser usr]) s0 [] = (snd (create_user usr s), issued @ [n])"
    by (simp add: run_append assms(2) issued_by_def c uid_mk_user)
  from inv lt have so: "sorted_wrt (<) (issued @ [n])"
    by (simp add: doc_inv_def sorted_wrt_append)
  from n lt c r so show ?thesis
    by (simp add: f load_db_save uid_mk_user JSONResponse_def)
qed

theorem create_assigns_next_id_witness:
  "initial no_file
   \<and> run [CreateUser alice, DeleteUser 1] no_file []
       = (\<lparr>content = Some \<lparr>users = [], next_id = Some 2\<rparr>, writes = 3\<rparr>, [1])
   \<and> uid (fst (create_user bob \<lparr>content = Some \<lparr>users = [], next_id = Some 2\<rparr>, writes = 3\<rparr>)) = 2
   \<and> next_id (fst (load_db (snd (create_user bob
         \<lparr>content = Some \<lparr>users = [], next_id = Some 2\<rparr>, writes = 3\<rparr>)))) = Some 3"
proof -
  have h1: "initial no_file"
    by (simp add: initial_def no_file_def)
  have h2: "run [CreateUser alice, DeleteUser 1] no_file []
       = (\<lparr>content = Some \<lparr>users = [], next_id = Some 2\<rparr>, writes = 3\<rparr>, [1])"
    by (simp add: eval_store)
  from create_assigns_next_id [OF h1 h2, of bob] h1 h2 show ?thesis
    by (auto simp: load_db_Some)
qed

text \<open>Claim C2. In every state reached from an initial state by any sequence of calls
  (create, update, delete, and the reads), the records of the document have distinct ids,
  each of them an id that was issued, and \<open>next_id\<close> is present and greater than every id ever
  issued, hence greater than the id of every record.\<close>

theorem store_invariant:
  assumes "initial s0" and "run calls s0 [] = (s, issued)"
  shows "distinct (map uid (users (fst (load_db s))))
       \<and> uid ` set (users (fst (load_db s))) \<subseteq> set issued
       \<and> (\<exists>n. next_id (fst (load_db s)) = Some n \<and> (\<forall>i\<in>set issued. i < n)
               \<and> (\<forall>u\<in>set (users (fst (load_db s))). uid u < n))"
proof -
  from initial_inv [OF assms(1)] assms(2) have "store_inv s issued"
    by (rule store_inv_run)
  then show ?thesis
    by (auto simp: store_inv_def doc_inv_def split: option.splits)
qed

theorem store_invariant_witness:
  "initial no_file
   \<and> run [CreateUser alice, CreateUser bob, DeleteUser 1, UpdateUser 2 alice] no_file []
       = (\<lparr>content = Some \<lparr>users = [mk_user 2 alice], next_id = Some 3\<rparr>, writes = 5\<rparr>, [1, 2])
   \<and> distinct (map uid (users (fst (load_db
         \<lparr>content = Some \<lparr>users = [mk_user 2 alice], next_id = Some 3\<rparr>, writes = 5\<rparr>))))
   \<and> (\<exists>n. next_id (fst (load_db
         \<lparr>content = Some \<lparr>users = [mk_user 2 alice], next_id = Some 3\<rparr>, writes = 5\<rparr>)) = Some n
        \<and> 1 < n \<and> 2 < n)"
proof -
  have h1: "initial no_file"
    by (simp add: initial_def no_file_def)
  have h2: "run [CreateUser alice, CreateUser bob, DeleteUser 1, UpdateUser 2 alice] no_file []
       = (\<lparr>content = Some \<lparr>users = [mk_user 2 alice], next_id = Some 3\<rparr>, writes = 5\<rparr>, [1, 2])"
    by (simp add: eval_store)
  from store_invariant [OF h1 h2] h1 h2 show ?thesis
    by auto
qed




text \<open>Claim C4 says that a request for a path under \<^verbatim>\<open>/admin/\<close> without the right key is
  answered 401 and never reaches the handler. The guard tests \<^verbatim>\<open>request.url.path\<close>, the
  routes are matched against the path of the request, and the \<^verbatim>\<open>Host\<close> header can make the
  two differ: a \<^verbatim>\<open>GET /admin/secret\<close> with \<^verbatim>\<open>Host: x/y?\<close> and no key has the URL
  \<^verbatim>\<open>http://x/y?/admin/secret\<close>, whose path is \<^verbatim>\<open>/y\<close>. The guard forwards it, the route
  \<^verbatim>\<open>/admin/secret\<close> matches, and the handler answers 200 with the welcome payload.\<close>

theorem admin_guard_host_bypass:
  "path (get_request ''/admin/secret'' [''host'' \<mapsto> ''x/y?'']) = ''/admin/secret''
   \<and> req_headers (get_request ''/admin/secret'' [''host'' \<mapsto> ''x/y?'']) ''X-API-Key'' = None
   \<and> url_path (get_request ''/admin/secret'' [''host'' \<mapsto> ''x/y?'']) = ''/y''
   \<and> route sample_framework (get_request ''/admin/secret'' [''host'' \<mapsto> ''x/y?''])
       = Some AdminSecret
   \<and> application sample_framework ''secret'' 123
         (get_request ''/admin/secret'' [''host'' \<mapsto> ''x/y?'']) (Sound two_users)
       = (\<lparr>status = 200,
           resp_headers = [''content-type'' \<mapsto> ''application/json'',
                           ''X-Process-Time'' \<mapsto> format_ms 123],
           body = Some (JObj [(''ok'', JBool True), (''msg'', JStr ''Welcome, admin.'')])\<rparr>,
          Sound two_users)"
  by (simp add: eval_http)

text \<open>Claim C5. On a stored document in which no record has the id, \<^verbatim>\<open>PUT /users/{id}\<close> with
  any body answers 404 with the detail \<^verbatim>\<open>User not found\<close> and returns the file system as it
  was: same content, and no write.\<close>

theorem update_missing:
  assumes "content s = Some db" and "user_id \<notin> uid ` set (users db)"
  shows "update_user user_id usr s = (Inl (HTTPException 404 ''User not found''), s)
       \<and> dispatch (UpdateUser user_id usr) s
           = (\<lparr>status = 404, resp_headers = [''content-type'' \<mapsto> ''application/json''],
                body = Some (JObj [(''detail'', JStr ''User not found'')])\<rparr>, s)"
proof -
  from assms(2) have "first_index user_id (users db) = None"
    by (simp add: first_index_None)
  with assms(1) have "update_user user_id usr s = (Inl (HTTPException 404 ''User not found''), s)"
    by (simp add: update_user_def load_db_Some)
  then show ?thesis
    by (simp add: JSONResponse_def)
qed

theorem update_missing_witness:
  "content two_users = Some \<lparr>users = [mk_user 1 alice, mk_user 2 bob], next_id = Some 3\<rparr>
   \<and> 7 \<notin> uid ` set [mk_user 1 alice, mk_user 2 bob]
   \<and> update_user 7 bob two_users = (Inl (HTTPException 404 ''User not found''), two_users)"
  using update_missing
          [of two_users "\<lparr>users = [mk_user 1 alice, mk_user 2 bob], next_id = Some 3\<rparr>" 7 bob]
  by (simp add: two_users_def mk_user_def)



text \<open>The claim C7 reads: on every store document, a \<^verbatim>\<open>GET\<close> that follows the \<^verbatim>\<open>DELETE\<close> of the
  same id answers 404. On a document with two records of that id it answers 200 with the
  second one:\<close>

theorem delete_then_get_same_id_twice:
  "dispatch (DeleteUser 1) same_id_twice
     = (\<lparr>status = 204, resp_headers = [''content-type'' \<mapsto> ''application/json''], body = None\<rparr>,
        \<lparr>content = Some \<lparr>users = [mk_user 1 bob], next_id = Some 2\<rparr>, writes = 3\<rparr>)
   \<and> dispatch (GetUser 1) \<lparr>content = Some \<lparr>users = [mk_user 1 bob], next_id = Some 2\<rparr>, writes = 3\<rparr>
     = (\<lparr>status = 200, resp_headers = [''content-type'' \<mapsto> ''application/json''],
         body = Some (user_out (mk_user 1 bob))\<rparr>,
        \<lparr>content = Some \<lparr>users = [mk_user 1 bob], next_id = Some 2\<rparr>, writes = 3\<rparr>)"
  by (simp add: eval_store JSONResponse_def empty_response_def)

text \<open>Claim C7, as the code has it. On a stored document, \<^verbatim>\<open>DELETE /users/{id}\<close> on an id that
  some record has answers 204 with an empty body and writes the document without the first
  record that has the id, all others kept in order; when the ids of the document are
  distinct, a following \<^verbatim>\<open>GET /users/{id}\<close> on the same id answers 404 with the detail
  \<^verbatim>\<open>User not found\<close>. \<^verbatim>\<open>DELETE\<close> on an id that no record has answers 404.\<close>

theorem delete_existing:
  assumes "content s = Some db"
  shows "(user_id \<in> uid ` set (users db) \<longrightarrow>
           (\<exists>xs u ys s'. users db = xs @ u # ys \<and> uid u = user_id \<and> user_id \<notin> uid ` set xs
              \<and> s' = s\<lparr>content := Some (db\<lparr>users := xs @ ys\<rparr>), writes := Suc (writes s)\<rparr>
              \<and> delete_user user_id s = (Inr (), s')
              \<and> dispatch (DeleteUser user_id) s
                  = (\<lparr>status = 204, resp_headers = [''content-type'' \<mapsto> ''application/json''],
                       body = None\<rparr>, s')
              \<and> (distinct (map uid (users db)) \<longrightarrow>
                   dispatch (GetUser user_id) s'
                     = (\<lparr>status = 404, resp_headers = [''content-type'' \<mapsto> ''application/json''],
                          body = Some (JObj [(''detail'', JStr ''User not found'')])\<rparr>, s'))))
       \<and> (user_id \<notin> uid ` set (users db) \<longrightarrow>
            dispatch (DeleteUser user_id) s
              = (\<lparr>status = 404, resp_headers = [''content-type'' \<mapsto> ''application/json''],
                   body = Some (JObj [(''detail'', JStr ''User not found'')])\<rparr>, s))"
proof (intro conjI impI)
  assume "user_id \<in> uid ` set (users db)"
  then obtain i where i: "first_index user_id (users db) = Some i"
    using first_index_exists by blast
  define xs where "xs = take i (users db)"
  define u where "u = users db ! i"
  define ys where "ys = drop (Suc i) (users db)"
  define s' where "s' = s\<lparr>content := Some (db\<lparr>users := xs @ ys\<rparr>), writes := Suc (writes s)\<rparr>"
  from first_index_split [OF i]
  have sp: "users db = xs @ u # ys" "uid u = user_id" "user_id \<notin> uid ` set xs"
    by (simp_all add: xs_def u_def ys_def)
  have del: "delete_user user_id s = (Inr (), s')"
    using assms i
    by (simp add: delete_user_def load_db_Some save_db_def pop_def s'_def xs_def ys_def)
  have disp: "dispatch (DeleteUser user_id) s
                = (\<lparr>status = 204, resp_headers = [''content-type'' \<mapsto> ''application/json''],
                       body = None\<rparr>, s')"
    by (simp add: del empty_response_def)
  have get: "dispatch (GetUser user_id) s'
               = (\<lparr>status = 404, resp_headers = [''content-type'' \<mapsto> ''application/json''],
                    body = Some (JObj [(''detail'', JStr ''User not found'')])\<rparr>, s')"
    if "distinct (map uid (users db))"
  proof -
    from that sp have "user_id \<notin> uid ` set (xs @ ys)" by auto
    then have "find (\<lambda>u. uid u = user_id) (xs @ ys) = None"
      by (simp add: find_None_iff_id)
    moreover have "load_db s' = (db\<lparr>users := xs @ ys\<rparr>, s')"
      by (rule load_db_Some) (simp add: s'_def)
    ultimately show ?thesis
      by (simp add: get_user_def JSONResponse_def)
  qed
  from sp del disp get
  show "\<exists>xs u ys s'. users db = xs @ u # ys \<and> uid u = user_id \<and> user_id \<notin> uid ` set xs
              \<and> s' = s\<lparr>content := Some (db\<lparr>users := xs @ ys\<rparr>), writes := Suc (writes s)\<rparr>
              \<and> delete_user user_id s = (Inr (), s')
              \<and> dispatch (DeleteUser user_id) s
                  = (\<lparr>status = 204, resp_headers = [''content-type'' \<mapsto> ''application/json''],
                       body = None\<rparr>, s')
              \<and> (distinct (map uid (users db)) \<longrightarrow>
                   dispatch (GetUser user_id) s'
                     = (\<lparr>status = 404, resp_headers = [''content-type'' \<mapsto> ''application/json''],
                          body = Some (JObj [(''detail'', JStr ''User not found'')])\<rparr>, s'))"
    unfolding s'_def by blast
next
  assume "user_id \<notin> uid ` set (users db)"
  then have "first_index user_id (users db) = None"
    by (simp add: first_index_None)
  with assms show "dispatch (DeleteUser user_id) s
              = (\<lparr>status = 404, resp_headers = [''content-type'' \<mapsto> ''application/json''],
                   body = Some (JObj [(''detail'', JStr ''User not found'')])\<rparr>, s)"
    by (simp add: delete_user_def load_db_Some JSONResponse_def)
qed

theorem delete_existing_witness:
  "content two_users = Some \<lparr>users = [mk_user 1 alice, mk_user 2 bob], next_id = Some 3\<rparr>
   \<and> 1 \<in> uid ` set [mk_user 1 alice, mk_user 2 bob]
   \<and> distinct (map uid [mk_user 1 alice, mk_user 2 bob])
   \<and> delete_user 1 two_users
       = (Inr (), \<lparr>content = Some \<lparr>users = [mk_user 2 bob], next_id = Some 3\<rparr>, writes = 4\<rparr>)
   \<and> status (fst (dispatch (GetUser 1)
        \<lparr>content = Some \<lparr>users = [mk_user 2 bob], next_id = Some 3\<rparr>, writes = 4\<rparr>)) = 404
   \<and> 7 \<notin> uid ` set [mk_user 1 alice, mk_user 2 bob]
   \<and> status (fst (dispatch (DeleteUser 7) two_users)) = 404"
proof -
  have h1: "content two_users = Some \<lparr>users = [mk_user 1 alice, mk_user 2 bob], next_id = Some 3\<rparr>"
    by (simp add: two_users_def)
  have h2: "1 \<in> uid ` set (users \<lparr>users = [mk_user 1 alice, mk_user 2 bob], next_id = Some 3\<rparr>)"
    by (simp add: mk_user_def)
  have h3: "distinct (map uid (users \<lparr>users = [mk_user 1 alice, mk_user 2 bob], next_id = Some 3\<rparr>))"
    by (simp add: mk_user_def)
  have h4: "7 \<notin> uid ` set (users \<lparr>users = [mk_user 1 alice, mk_user 2 bob], next_id = Some 3\<rparr>)"
    by (simp add: mk_user_def)
  have e: "delete_user 1 two_users
       = (Inr (), \<lparr>content = Some \<lparr>users = [mk_user 2 bob], next_id = Some 3\<rparr>, writes = 4\<rparr>)"
    by (simp add: eval_store)
  from delete_existing [OF h1, of 1] h2 h3 e
  have g: "status (fst (dispatch (GetUser 1)
        \<lparr>content = Some \<lparr>users = [mk_user 2 bob], next_id = Some 3\<rparr>, writes = 4\<rparr>)) = 404"
    by auto
  from delete_existing [OF h1, of 7] h4
  have d: "status (fst (dispatch (DeleteUser 7) two_users)) = 404"
    by simp
  from h1 h2 h3 h4 e g d show ?thesis by simp
qed

text \<open>Claim C8. \<^verbatim>\<open>_ensure_db\<close> is idempotent: on an absent file it writes the default document
  \<^verbatim>\<open>{"users": [], "next_id": 1}\<close>, on an existing file it changes nothing (no write either),
  and running it twice is running it once. The first \<^verbatim>\<open>load_db\<close> on an absent file returns
  the default document.\<close>

theorem ensure_idempotent:
  "ensure_db (ensure_db s) = ensure_db s
   \<and> ensure_db \<lparr>content = None, writes = w\<rparr> = \<lparr>content = Some default_document, writes = Suc w\<rparr>
   \<and> ensure_db \<lparr>content = Some db, writes = w\<rparr> = \<lparr>content = Some db, writes = w\<rparr>
   \<and> load_db \<lparr>content = None, writes = w\<rparr>
       = (\<lparr>users = [], next_id = Some 1\<rparr>, \<lparr>content = Some \<lparr>users = [], next_id = Some 1\<rparr>, writes = Suc w\<rparr>)"
  by (simp add: ensure_db_def load_db_def default_document_def split: option.splits)

text \<open>Claim C9. On a stored document without the key \<open>next_id\<close>, \<^verbatim>\<open>create_user\<close> gives the new
  user the id 1 and stores \<open>next_id\<close> 2, whatever the ids of the records present; when a record
  with id 1 is present, the new document has two records with the same id.\<close>

theorem create_without_next_id:
  assumes "content s = Some db" and "next_id db = None"
  shows "create_user usr s
           = (mk_user 1 usr,
              s\<lparr>content := Some (db\<lparr>users := users db @ [mk_user 1 usr], next_id := Some 2\<rparr>),
                writes := Suc (writes s)\<rparr>)
       \<and> uid (mk_user 1 usr) = 1
       \<and> (1 \<in> uid ` set (users db) \<longrightarrow> \<not> distinct (map uid (users db @ [mk_user 1 usr])))"
  using assms
  by (auto simp: create_user_def load_db_Some save_db_def Let_def mk_user_def)

theorem create_without_next_id_witness:
  "create_user bob \<lparr>content = Some \<lparr>users = [mk_user 1 alice], next_id = None\<rparr>, writes = 1\<rparr>
     = (mk_user 1 bob,
        \<lparr>content = Some \<lparr>users = [mk_user 1 alice, mk_user 1 bob], next_id = Some 2\<rparr>, writes = 2\<rparr>)
   \<and> \<not> distinct (map uid [mk_user 1 alice, mk_user 1 bob])"
  using create_without_next_id
          [of "\<lparr>content = Some \<lparr>users = [mk_user 1 alice], next_id = None\<rparr>, writes = 1\<rparr>"
              "\<lparr>users = [mk_user 1 alice], next_id = None\<rparr>" bob]
  by (simp add: mk_user_def)

text \<open>The claim C10 reads: the 404 path of \<^verbatim>\<open>DELETE\<close> does not write the backing file. While
  the file does not exist it does, through the \<^verbatim>\<open>_ensure_db\<close> of \<^verbatim>\<open>load_db\<close>:\<close>

theorem delete_missing_creates_file:
  "delete_user 7 \<lparr>content = None, writes = 0\<rparr>
     = (Inl (HTTPException 404 ''User not found''),
        \<lparr>content = Some \<lparr>users = [], next_id = Some 1\<rparr>, writes = 1\<rparr>)"
  by (simp add: eval_store)

text \<open>Claim C10, as the code has it. When no record of the document that \<^verbatim>\<open>load_db\<close> returns
  has the id, \<^verbatim>\<open>DELETE /users/{id}\<close> answers 404 and \<^verbatim>\<open>save_db\<close> is not called: the file system
  is left as \<^verbatim>\<open>_ensure_db\<close> leaves it. On an existing file that is the state before the call,
  same content and no write; on an absent file it is the default document, written once. The
  document that a load returns is the same before and after.\<close>

theorem delete_missing:
  assumes "user_id \<notin> uid ` set (users (fst (load_db s)))"
  shows "delete_user user_id s = (Inl (HTTPException 404 ''User not found''), ensure_db s)
       \<and> dispatch (DeleteUser user_id) s
           = (\<lparr>status = 404, resp_headers = [''content-type'' \<mapsto> ''application/json''],
                body = Some (JObj [(''detail'', JStr ''User not found'')])\<rparr>, ensure_db s)
       \<and> fst (load_db (ensure_db s)) = fst (load_db s)
       \<and> (content s \<noteq> None \<longrightarrow> ensure_db s = s)
       \<and> (content s = None \<longrightarrow>
            ensure_db s = s\<lparr>content := Some default_document, writes := Suc (writes s)\<rparr>)"
proof -
  obtain db where l: "load_db s = (db, ensure_db s)" and f: "fst (load_db s) = db"
    by (rule load_db_obtain)
  from assms f have "first_index user_id (users db) = None"
    by (simp add: first_index_None)
  then have d: "delete_user user_id s = (Inl (HTTPException 404 ''User not found''), ensure_db s)"
    by (simp add: delete_user_def l)
  have e: "(content s \<noteq> None \<longrightarrow> ensure_db s = s)
       \<and> (content s = None \<longrightarrow>
            ensure_db s = s\<lparr>content := Some default_document, writes := Suc (writes s)\<rparr>)"
    by (auto simp: ensure_db_def)
  from d e show ?thesis
    by (simp add: JSONResponse_def load_db_twice)
qed

theorem delete_missing_witness:
  "7 \<notin> uid ` set (users (fst (load_db two_users)))
   \<and> delete_user 7 two_users = (Inl (HTTPException 404 ''User not found''), two_users)
   \<and> 7 \<notin> uid ` set (users (fst (load_db no_file)))
   \<and> delete_user 7 no_file
       = (Inl (HTTPException 404 ''User not found''),
          \<lparr>content = Some default_document, writes = 1\<rparr>)"
proof -
  have h1: "7 \<notin> uid ` set (users (fst (load_db two_users)))"
    by (simp add: eval_store)
  have h2: "7 \<notin> uid ` set (users (fst (load_db no_file)))"
    by (simp add: eval_store)
  have e1: "ensure_db two_users = two_users"
    by (simp add: ensure_db_def two_users_def)
  have e2: "ensure_db no_file = \<lparr>content = Some default_document, writes = 1\<rparr>"
    by (simp add: ensure_db_def no_file_def)
  from delete_missing [OF h1] delete_missing [OF h2] h1 h2 show ?thesis
    by (simp only: e1 e2 simp_thms)
qed

end
